theory Spec2Isabelle
  imports Main
begin

section \<open>The multi-tabbed dialog (src/Plugin/UI/MultiTabbedDialog.cpp)\<close>

text \<open>
  A tab identifier is a C++ \<open>int\<close>. A window handle is a number, with \<open>0\<close> for
  \<open>nullptr\<close>. An iterator into a \<open>std::list\<close> is the index of the element it points
  to; the past-the-end iterator of a list \<open>xs\<close> is \<open>length xs\<close>.
\<close>

type_synonym tab_id_t = int
type_synonym HWND = nat

text \<open>
  The two structures the code stores. \<open>Tab\<close> is built in \<open>addTabAt\<close> from the tab
  identifier and \<open>this\<close>; \<open>TabItem\<close> is built there from the dialog resource
  identifier alone, which leaves its handle at \<open>nullptr\<close>.
\<close>

record Tab =
  tab :: tab_id_t
  multiTabbedDialog :: nat

record TabItem =
  dialogID :: int
  handle :: HWND

text \<open>
  What the code does to the outside: the messages it sends to the tabs control, the
  windows it creates, shows and destroys, and the virtual hooks it calls. The dialog
  keeps them in the order they happen.
\<close>

datatype Win32Call =
    TCM_DELETEITEM int
  | TCM_SETCURSEL int
  | TCM_INSERTITEM int string
  | DestroyWindow HWND
  | CreateDialogParam int nat
  | SetWindowPos HWND
  | setTabVisibility tab_id_t bool
  | onTabDialogCreated tab_id_t
  | onTabDialogDestroyed tab_id_t

datatype error =
    invalid_argument string
  | undefined_behaviour

record MultiTabbedDialog =
  self :: nat
  tabs :: "Tab list"
  hiddenTabs :: "Tab list"
  tabItems :: "tab_id_t \<rightharpoonup> TabItem"
  currentTab :: tab_id_t
  calls :: "Win32Call list"

definition send :: "Win32Call \<Rightarrow> MultiTabbedDialog \<Rightarrow> MultiTabbedDialog" where
  "send c s = s\<lparr>calls := calls s @ [c]\<rparr>"

text \<open>
  Modelled from the spec: \<open>findTab\<close> and \<open>getTabIndex\<close> are declared in
  MultiTabbedDialog.hpp, which is not among the sources, and the spec leaves the dialog
  out of scope. They follow their uses in the source: \<open>findTab\<close> is compared with
  \<open>tabs.end()\<close> and is the search that \<open>addTabAt\<close> writes out for \<open>hiddenTabs\<close>
  (\<open>std::find_if\<close> on the \<open>tab\<close> field); \<open>getTabIndex\<close> gives the position that the
  tabs control uses, which \<open>handleNotifyMessage\<close> turns back into an iterator with
  \<open>std::next(tabs.begin(), tabIndex)\<close>.
\<close>

definition find_tab_in :: "Tab list \<Rightarrow> tab_id_t \<Rightarrow> nat" where
  "find_tab_in xs t = length (takeWhile (\<lambda>tabInfo. tab tabInfo \<noteq> t) xs)"

definition findTab :: "tab_id_t \<Rightarrow> MultiTabbedDialog \<Rightarrow> nat" where
  "findTab t s = find_tab_in (tabs s) t"

definition getTabIndex :: "nat \<Rightarrow> int" where
  "getTabIndex pos = int pos"

text \<open>
  Modelled from the spec: \<open>isTabDialogCreated\<close> is declared in MultiTabbedDialog.hpp,
  which is not among the sources. A tab's dialog exists when its item holds a handle
  other than \<open>nullptr\<close>, which is the test the destructor makes before it destroys a
  window.
\<close>

definition isTabDialogCreated :: "tab_id_t \<Rightarrow> MultiTabbedDialog \<Rightarrow> bool" where
  "isTabDialogCreated t s =
     (case tabItems s t of None \<Rightarrow> False | Some item \<Rightarrow> handle item \<noteq> 0)"

text \<open>\<open>tabItems[tab]\<close>: \<open>std::map::operator[]\<close> inserts a value-initialised item
  when the key is missing.\<close>

definition item_at :: "(tab_id_t \<rightharpoonup> TabItem) \<Rightarrow> tab_id_t \<Rightarrow> TabItem" where
  "item_at items t =
     (case items t of None \<Rightarrow> \<lparr>dialogID = 0, handle = 0\<rparr> | Some item \<Rightarrow> item)"

definition erase_at :: "nat \<Rightarrow> 'a list \<Rightarrow> 'a list" where
  "erase_at i xs = take i xs @ drop (Suc i) xs"

definition insert_at :: "nat \<Rightarrow> 'a \<Rightarrow> 'a list \<Rightarrow> 'a list" where
  "insert_at pos x xs = take pos xs @ x # drop pos xs"

text \<open>
  \<open>removeTab\<close>. With \<open>destroy\<close> the code dereferences \<open>tabItems.find(tab)\<close> without a
  test, so a visible tab with no item is undefined behaviour.
\<close>

definition removeTab ::
  "tab_id_t \<Rightarrow> bool \<Rightarrow> MultiTabbedDialog \<Rightarrow> error + (bool \<times> MultiTabbedDialog)" where
  "removeTab t destroy s =
     (let iter = findTab t s in
      if iter \<noteq> length (tabs s) then
        (let s1 = send (TCM_DELETEITEM (getTabIndex iter)) s in
         if destroy then
           (case tabItems s1 t of
              None \<Rightarrow> Inl undefined_behaviour
            | Some item \<Rightarrow>
                Inr (True,
                  send (onTabDialogDestroyed t)
                    (send (DestroyWindow (handle item))
                       (s1\<lparr>tabs := erase_at iter (tabs s1),
                           tabItems := (tabItems s1)(t := None)\<rparr>))))
         else
           Inr (True,
             s1\<lparr>tabs := erase_at iter (tabs s1),
                hiddenTabs := hiddenTabs s1 @ [tabs s1 ! iter]\<rparr>))
      else Inr (False, s))"

text \<open>
  \<open>MAKEINTRESOURCE\<close> casts its argument to \<open>WORD\<close>, an unsigned 16-bit integer.
\<close>

definition MAKEINTRESOURCE :: "int \<Rightarrow> int" where
  "MAKEINTRESOURCE i = i mod 65536"

text \<open>
  \<open>createTabDialog\<close>. The handle that \<open>CreateDialogParam\<close> returns is the
  environment's choice: \<open>W\<close> gives it for the resource it is called with.
\<close>

definition createTabDialog ::
  "(int \<Rightarrow> HWND) \<Rightarrow> tab_id_t \<Rightarrow> MultiTabbedDialog \<Rightarrow> MultiTabbedDialog" where
  "createTabDialog W t s =
     (let iter = findTab t s in
      if iter \<noteq> length (tabs s) then
        (let item = item_at (tabItems s) t;
             resource = MAKEINTRESOURCE (dialogID item);
             h = W resource;
             s1 = send (CreateDialogParam resource iter) s;
             s2 = s1\<lparr>tabItems := (tabItems s1)(t \<mapsto> item\<lparr>handle := h\<rparr>)\<rparr>
         in send (onTabDialogCreated t) (send (SetWindowPos h) s2))
      else s)"

definition showTab ::
  "(int \<Rightarrow> HWND) \<Rightarrow> tab_id_t \<Rightarrow> MultiTabbedDialog \<Rightarrow> MultiTabbedDialog" where
  "showTab W t s =
     (if currentTab s \<noteq> t then
        (let s1 = (if currentTab s \<ge> 0 then send (setTabVisibility (currentTab s) False) s
                   else s);
             s2 = s1\<lparr>currentTab := t\<rparr>;
             s3 = (if \<not> isTabDialogCreated (currentTab s2) s2
                   then createTabDialog W (currentTab s2) s2 else s2);
             s4 = send (setTabVisibility (currentTab s3) True) s3
         in send (TCM_SETCURSEL (getTabIndex (findTab (currentTab s4) s4))) s4)
      else s)"

text \<open>
  \<open>addTabAt\<close>. \<open>pos\<close> is an iterator into \<open>tabs\<close>. For a tab found in \<open>tabs\<close> or
  in \<open>hiddenTabs\<close> the code reads \<open>tabItems[tab]\<close>, which inserts an item when there
  is none, and throws \<open>std::invalid_argument\<close> when the dialog resource identifier
  stored is not the one given. Otherwise it calls \<open>tabs.splice(pos, list, iter)\<close>,
  where \<open>list\<close> is a copy of \<open>tabs\<close> or of \<open>hiddenTabs\<close> and \<open>iter\<close> points into
  the original: \<open>splice\<close> asks for an iterator into the list it is given, so the call
  is undefined behaviour. An error comes with the dialog as the code has left it.
\<close>

definition addTabAt ::
  "(int \<Rightarrow> HWND) \<Rightarrow> tab_id_t \<Rightarrow> int \<Rightarrow> string \<Rightarrow> nat \<Rightarrow> bool \<Rightarrow> MultiTabbedDialog
     \<Rightarrow> (error \<times> MultiTabbedDialog) + MultiTabbedDialog" where
  "addTabAt W t dlg txt pos lazyInitialization s =
     (let tabIndex = getTabIndex pos;
          iter = findTab t s;
          hiddenIter = find_tab_in (hiddenTabs s) t;
          foundExistingTab = (iter \<noteq> length (tabs s) \<or> hiddenIter \<noteq> length (hiddenTabs s))
      in
      if foundExistingTab then
        (let s1 = s\<lparr>tabItems := (tabItems s)(t \<mapsto> item_at (tabItems s) t)\<rparr> in
         if dialogID (item_at (tabItems s) t) \<noteq> dlg then
           Inl (invalid_argument ''Cannot use the same tab ID for different dialogs'', s1)
         else Inl (undefined_behaviour, s1))
      else
        (let s1 = s\<lparr>tabs := insert_at pos \<lparr>tab = t, multiTabbedDialog = self s\<rparr> (tabs s),
                     tabItems := (tabItems s)(t \<mapsto> \<lparr>dialogID = dlg, handle = 0\<rparr>)\<rparr>;
             s2 = (if \<not> lazyInitialization then createTabDialog W t s1 else s1)
         in Inr (send (TCM_INSERTITEM tabIndex txt) s2)))"

text \<open>
  What the operations keep: the visible tabs have distinct identifiers and each has an
  item. A dialog without tabs has the property, and \<open>addTabAt\<close>, \<open>removeTab\<close>
  and \<open>showTab\<close> keep it.
\<close>

definition visible_tabs_have_items :: "MultiTabbedDialog \<Rightarrow> bool" where
  "visible_tabs_have_items s =
     (distinct (map tab (tabs s)) \<and> (\<forall>x \<in> set (tabs s). tabItems s (tab x) \<noteq> None))"

section \<open>The lexer (src/Plugin/Lexer/Lexer.hpp)\<close>

subsection \<open>What the header declares\<close>

text \<open>The lexer's style states, \<open>enum class State\<close>, in the order of the declaration.\<close>

datatype State =
    Default
  | Operator
  | FlowControl
  | Type
  | Keyword
  | Keyword2
  | FoldOpen
  | FoldMiddle
  | FoldClose
  | Comment
  | CommentMultiLine
  | CommentDoc
  | Number
  | String
  | Property
  | Class
  | Function

text \<open>
  The enumerators have no initialisers, so the first has the value zero and each
  other one the value of its predecessor plus one.
\<close>

definition ordinal :: "State \<Rightarrow> nat" where
  "ordinal s =
     (case s of
        Default \<Rightarrow> 0
      | Operator \<Rightarrow> 1
      | FlowControl \<Rightarrow> 2
      | Type \<Rightarrow> 3
      | Keyword \<Rightarrow> 4
      | Keyword2 \<Rightarrow> 5
      | FoldOpen \<Rightarrow> 6
      | FoldMiddle \<Rightarrow> 7
      | FoldClose \<Rightarrow> 8
      | Comment \<Rightarrow> 9
      | CommentMultiLine \<Rightarrow> 10
      | CommentDoc \<Rightarrow> 11
      | Number \<Rightarrow> 12
      | String \<Rightarrow> 13
      | Property \<Rightarrow> 14
      | Class \<Rightarrow> 15
      | Function \<Rightarrow> 16)"

text \<open>\<open>struct Property\<close>, \<open>enum class TokenType\<close> and \<open>struct Token\<close>. A token's
  \<open>startPos\<close> is counted from the start of its line.\<close>

record Property =
  name :: string
  line :: nat

datatype TokenType = Identifier | Numeric | Special

record Token =
  content :: string
  tokenType :: TokenType
  startPos :: nat

text \<open>The lexer's members: the eight word lists and the two property caches.\<close>

record Lexer =
  wordListOperators :: "string list"
  wordListFlowControl :: "string list"
  wordListTypes :: "string list"
  wordListKeywords :: "string list"
  wordListKeywords2 :: "string list"
  wordListFoldOpen :: "string list"
  wordListFoldMiddle :: "string list"
  wordListFoldClose :: "string list"
  propertyLines :: "Property list"
  propertyNames :: "string set"

subsection \<open>The document accessor and the word lists\<close>

text \<open>
  Modelled from the spec: the document accessor is Scintilla's, outside the repository.
  The spec (section 6) gives it as character reads by position, line lookup, a sink
  for the style of a run of characters and a sink for the fold level and header flag
  of a line. The document is its lines, each with its line end; the style buffer and
  the fold levels are kept line by line. \<open>lineOfPos\<close> is the line that holds a
  position.
\<close>

record Document =
  lines :: "string list"
  styles :: "State list list"
  levels :: "(int \<times> bool) list"

fun lineOfPos :: "string list \<Rightarrow> nat \<Rightarrow> nat" where
  "lineOfPos [] p = 0"
| "lineOfPos (t # ts) p = (if p < length t then 0 else Suc (lineOfPos ts (p - length t)))"

text \<open>
  Modelled from the spec: \<open>WordList\<close> is Scintilla's, outside the repository. The spec
  (section 3) has a word list hold lowercased keywords and test membership without
  regard to case.
\<close>

definition lowerChar :: "char \<Rightarrow> char" where
  "lowerChar c =
     (case map_of (zip ''ABCDEFGHIJKLMNOPQRSTUVWXYZ'' ''abcdefghijklmnopqrstuvwxyz'') c of
        Some d \<Rightarrow> d
      | None \<Rightarrow> c)"

definition InList :: "string list \<Rightarrow> string \<Rightarrow> bool" where
  "InList wl w = (map lowerChar w \<in> set wl)"

subsection \<open>The tokenizer\<close>

text \<open>
  Modelled from the spec: the body of \<open>tokenize\<close> is in Lexer.cpp, which is not among
  the sources. The spec gives its contract (section 4.1) and leaves open the
  language's character classes and operator set, so the scanner is a parameter of the
  model: \<open>scanLine\<close> gives the tokens of one line's text.
\<close>

record Syntax =
  scanLine :: "string \<Rightarrow> Token list"

text \<open>\<open>isComment\<close>, by its comment in the header: whether a style is one of the
  lexer's comment styles.\<close>

definition isComment :: "State \<Rightarrow> bool" where
  "isComment sty = (sty = Comment \<or> sty = CommentMultiLine \<or> sty = CommentDoc)"

subsection \<open>Fold\<close>

text \<open>
  Modelled from the spec: the fold computation (section 4.3). A token counts as a fold
  marker when it is an identifier outside comments and strings, which is read from the
  style at its start. An opening marker increments the depth, a closing marker
  decrements it and stops at zero, a middle marker leaves it.
\<close>

definition inCommentOrString :: "State list \<Rightarrow> Token \<Rightarrow> bool" where
  "inCommentOrString buf tok =
     (startPos tok < length buf \<and> (isComment (buf ! startPos tok) \<or> buf ! startPos tok = String))"

definition foldToken :: "Lexer \<Rightarrow> State list \<Rightarrow> int \<Rightarrow> Token \<Rightarrow> int" where
  "foldToken lx buf depth tok =
     (if tokenType tok \<noteq> Identifier \<or> inCommentOrString buf tok then depth
      else if InList (wordListFoldOpen lx) (content tok) then depth + 1
      else if InList (wordListFoldClose lx) (content tok) then max 0 (depth - 1)
      else depth)"

definition closeToken :: "Lexer \<Rightarrow> State list \<Rightarrow> int \<Rightarrow> Token \<Rightarrow> int" where
  "closeToken lx buf depth tok =
     (if tokenType tok \<noteq> Identifier \<or> inCommentOrString buf tok then depth
      else if InList (wordListFoldOpen lx) (content tok) then depth
      else if InList (wordListFoldClose lx) (content tok) then max 0 (depth - 1)
      else depth)"

definition foldLevel :: "Lexer \<Rightarrow> State list \<Rightarrow> Token list \<Rightarrow> int \<Rightarrow> int \<times> bool" where
  "foldLevel lx buf tokens previousDepth =
     (let newDepth = foldl (foldToken lx buf) previousDepth tokens
      in (newDepth, previousDepth < newDepth))"

definition levelBeforeOpens :: "Lexer \<Rightarrow> State list \<Rightarrow> Token list \<Rightarrow> int \<Rightarrow> int" where
  "levelBeforeOpens lx buf tokens previousDepth = foldl (closeToken lx buf) previousDepth tokens"

text \<open>
  Modelled from the spec: \<open>Fold\<close> (section 4.5), whose body is in Lexer.cpp.
  Unusable, it does nothing. Otherwise it walks the whole lines that overlap the range,
  with a depth of its own, seeded from the depth the document records at the start of
  the range. Each line's level and header flag are written; the lexer is not touched.
\<close>

fun foldLines ::
  "Syntax \<Rightarrow> Lexer \<Rightarrow> (string \<times> State list) list \<Rightarrow> int \<Rightarrow> (int \<times> bool) list \<times> int" where
  "foldLines syn lx [] depth = ([], depth)"
| "foldLines syn lx ((text, buf) # rest) depth =
     (let toks = scanLine syn text;
          (newDepth, isHeaderLine) = foldLevel lx buf toks depth;
          (lvls, final) = foldLines syn lx rest newDepth
      in ((levelBeforeOpens lx buf toks depth, isHeaderLine) # lvls, final))"

definition recordedDepth :: "Document \<Rightarrow> nat \<Rightarrow> int" where
  "recordedDepth doc L = (if L < length (levels doc) then fst (levels doc ! L) else 0)"

definition Fold ::
  "Syntax \<Rightarrow> bool \<Rightarrow> nat \<Rightarrow> nat \<Rightarrow> State \<Rightarrow> Lexer \<times> Document \<Rightarrow> Lexer \<times> Document" where
  "Fold syn isUsable startOffset lengthDoc initStyle = (\<lambda>(lx, doc).
     (if \<not> isUsable \<or> lengthDoc = 0 then (lx, doc)
      else
        (let firstLine = lineOfPos (lines doc) startOffset;
             lastLine = lineOfPos (lines doc) (startOffset + lengthDoc - 1);
             seg = take (Suc lastLine - firstLine) (drop firstLine (zip (lines doc) (styles doc)));
             (lvls, final) = foldLines syn lx seg (recordedDepth doc firstLine)
         in (lx, doc\<lparr>levels := take firstLine (levels doc) @ lvls
                                  @ drop (firstLine + length lvls) (levels doc)\<rparr>))))"

section \<open>Instances for evaluation\<close>

text \<open>A dialog with the visible tabs 1 and 2 and the hidden tab 3, for evaluation.\<close>

definition example_dialog :: MultiTabbedDialog where
  "example_dialog =
     \<lparr>self = 1,
      tabs = [\<lparr>tab = 1, multiTabbedDialog = 1\<rparr>, \<lparr>tab = 2, multiTabbedDialog = 1\<rparr>],
      hiddenTabs = [\<lparr>tab = 3, multiTabbedDialog = 1\<rparr>],
      tabItems = [1 \<mapsto> \<lparr>dialogID = 101, handle = 11\<rparr>,
                  2 \<mapsto> \<lparr>dialogID = 102, handle = 0\<rparr>,
                  3 \<mapsto> \<lparr>dialogID = 103, handle = 13\<rparr>],
      currentTab = 1,
      calls = []\<rparr>"

text \<open>
  A small scanner: tokens are the words between white space, an identifier when they
  start with a letter, a number when they start with a digit, special otherwise. And
  a lexer whose fold markers are \<open>If\<close> and \<open>EndIf\<close>, as in the spec's fold
  example, with \<open>Else\<close> as a middle marker.
\<close>

definition wordToken :: "nat \<Rightarrow> string \<Rightarrow> Token list" where
  "wordToken pos w =
     (case w of
        [] \<Rightarrow> []
      | c # cs \<Rightarrow>
          [\<lparr>content = w,
            tokenType =
              (if lowerChar c \<in> set ''abcdefghijklmnopqrstuvwxyz'' then Identifier
               else if c \<in> set ''0123456789'' then Numeric
               else Special),
            startPos = pos - length w\<rparr>])"

fun scanWords :: "nat \<Rightarrow> string \<Rightarrow> string \<Rightarrow> Token list" where
  "scanWords pos w [] = wordToken pos w"
| "scanWords pos w (c # cs) =
     (if c \<in> set [CHR '' '', CHR 0x09, CHR 0x0A, CHR 0x0D]
      then wordToken pos w @ scanWords (Suc pos) [] cs
      else scanWords (Suc pos) (w @ [c]) cs)"

definition example_syntax :: Syntax where
  "example_syntax = \<lparr>scanLine = scanWords 0 []\<rparr>"

definition example_lexer :: Lexer where
  "example_lexer =
     \<lparr>wordListOperators = [],
      wordListFlowControl = [],
      wordListTypes = [''int''],
      wordListKeywords = [''property''],
      wordListKeywords2 = [''auto''],
      wordListFoldOpen = [''if''],
      wordListFoldMiddle = [''else''],
      wordListFoldClose = [''endif''],
      propertyLines = [],
      propertyNames = {}\<rparr>"

definition blank :: "string list \<Rightarrow> Document" where
  "blank ts =
     \<lparr>lines = ts,
      styles = map (\<lambda>t. replicate (length t) Default) ts,
      levels = map (\<lambda>t. (0, False)) ts\<rparr>"

text \<open>A document with more closing markers than opening ones, unstyled and unfolded.\<close>

definition unbalanced_closes :: Document where
  "unbalanced_closes = blank [''If x\<newline>'', ''y = 1\<newline>'', ''EndIf EndIf\<newline>'']"

section \<open>Properties of the multi-tabbed dialog\<close>

lemma find_tab_in_found: "(find_tab_in xs t \<noteq> length xs) = (t \<in> tab ` set xs)"
  unfolding find_tab_in_def
  by (induction xs) auto

lemma findTab_found: "(findTab t s \<noteq> length (tabs s)) = (t \<in> tab ` set (tabs s))"
  by (simp add: findTab_def find_tab_in_found)

lemma find_tab_in_nth: "t \<in> tab ` set xs \<Longrightarrow> tab (xs ! find_tab_in xs t) = t"
  unfolding find_tab_in_def
  by (induction xs) auto

lemma set_insert_at: "set (insert_at pos x xs) = insert x (set xs)"
proof -
  have "set (take pos xs) \<union> set (drop pos xs) = set xs"
    by (metis append_take_drop_id set_append)
  then show ?thesis by (auto simp add: insert_at_def)
qed

lemma set_erase_at: "set (erase_at i xs) \<subseteq> set xs"
  unfolding erase_at_def by (auto dest: in_set_takeD in_set_dropD)

lemma distinct_erase_at: "distinct (map f xs) \<Longrightarrow> distinct (map f (erase_at i xs))"
proof -
  assume d: "distinct (map f xs)"
  have "map f xs = map f (take i xs) @ map f (drop i xs)"
    by (metis append_take_drop_id map_append)
  with d have "distinct (map f (take i xs) @ map f (drop i xs))" by simp
  moreover have "set (drop (Suc i) xs) \<subseteq> set (drop i xs)"
    by (metis drop_Suc set_drop_subset tl_drop drop_drop plus_1_eq_Suc set_drop_subset_set_drop le_add2)
  moreover have "distinct (map f (drop (Suc i) xs))"
    using d by (metis distinct_drop drop_map)
  ultimately show ?thesis
    unfolding erase_at_def by (auto simp add: distinct_map)
qed


lemma erased_not_left:
  assumes "distinct (map f xs)" and "i < length xs"
  shows "f (xs ! i) \<notin> f ` set (erase_at i xs)"
proof -
  have "xs = take i xs @ xs ! i # drop (Suc i) xs"
    using assms(2) by (rule id_take_nth_drop)
  then have "distinct (map f (take i xs @ xs ! i # drop (Suc i) xs))"
    using assms(1) by simp
  then show ?thesis
    unfolding erase_at_def by (auto simp add: distinct_map)
qed

lemma distinct_insert_at:
  assumes "distinct (map f xs)" and "f x \<notin> f ` set xs"
  shows "distinct (map f (insert_at pos x xs))"
proof -
  have "map f xs = map f (take pos xs) @ map f (drop pos xs)"
    by (metis append_take_drop_id map_append)
  with assms(1) have "distinct (map f (take pos xs) @ map f (drop pos xs))" by simp
  moreover have "f x \<notin> f ` set (take pos xs)" "f x \<notin> f ` set (drop pos xs)"
    using assms(2) by (auto dest: in_set_takeD in_set_dropD)
  ultimately show ?thesis
    unfolding insert_at_def by auto
qed

lemma find_tab_in_less: "t \<in> tab ` set xs \<Longrightarrow> find_tab_in xs t < length xs"
  using find_tab_in_found [of xs t]
  by (simp add: find_tab_in_def order_neq_le_trans length_takeWhile_le)

lemma removeTab_keeps_items:
  assumes "visible_tabs_have_items s" and "removeTab t destroy s = Inr (b, s')"
  shows "visible_tabs_have_items s'"
proof (cases "t \<in> tab ` set (tabs s)")
  case False
  then have "findTab t s = length (tabs s)" using findTab_found [of t s] by simp
  with assms show ?thesis by (simp add: removeTab_def Let_def)
next
  case True
  define i where "i = findTab t s"
  have i: "i < length (tabs s)" "tab (tabs s ! i) = t" "i \<noteq> length (tabs s)"
    using True find_tab_in_less [of t "tabs s"] find_tab_in_nth [of t "tabs s"]
    by (simp_all add: i_def findTab_def)
  have d: "distinct (map tab (erase_at i (tabs s)))"
    using assms(1) by (simp add: visible_tabs_have_items_def distinct_erase_at)
  have gone: "t \<notin> tab ` set (erase_at i (tabs s))"
    using erased_not_left [of tab "tabs s" i] assms(1) i
    by (simp add: visible_tabs_have_items_def)
  have sub: "set (erase_at i (tabs s)) \<subseteq> set (tabs s)" by (rule set_erase_at)
  show ?thesis
  proof (cases destroy)
    case True
    with assms(2) i obtain item where "tabItems s t = Some item"
      and s': "s' = send (onTabDialogDestroyed t) (send (DestroyWindow (handle item))
          ((send (TCM_DELETEITEM (getTabIndex i)) s)
             \<lparr>tabs := erase_at i (tabs s), tabItems := (tabItems s)(t := None)\<rparr>))"
      by (auto simp add: removeTab_def Let_def i_def [symmetric] send_def split: option.splits)
    show ?thesis
      unfolding s' visible_tabs_have_items_def
      using d gone sub assms(1)
      by (auto simp add: send_def visible_tabs_have_items_def)
  next
    case False
    with assms(2) i have s': "s' = (send (TCM_DELETEITEM (getTabIndex i)) s)
        \<lparr>tabs := erase_at i (tabs s), hiddenTabs := hiddenTabs s @ [tabs s ! i]\<rparr>"
      by (auto simp add: removeTab_def Let_def i_def [symmetric] send_def)
    show ?thesis
      unfolding s' visible_tabs_have_items_def
      using d sub assms(1)
      by (auto simp add: send_def visible_tabs_have_items_def)
  qed
qed

lemma createTabDialog_keeps_items:
  "visible_tabs_have_items s \<Longrightarrow> visible_tabs_have_items (createTabDialog W t s)"
  by (auto simp add: createTabDialog_def Let_def send_def visible_tabs_have_items_def)

lemma showTab_keeps_items:
  "visible_tabs_have_items s \<Longrightarrow> visible_tabs_have_items (showTab W t s)"
proof -
  assume inv: "visible_tabs_have_items s"
  have step: "\<And>u c. visible_tabs_have_items u \<Longrightarrow> visible_tabs_have_items (send c u)"
    by (simp add: send_def visible_tabs_have_items_def)
  have cur: "\<And>u c. visible_tabs_have_items u \<Longrightarrow> visible_tabs_have_items (u\<lparr>currentTab := c\<rparr>)"
    by (simp add: visible_tabs_have_items_def)
  show ?thesis
    unfolding showTab_def Let_def
    by (auto intro!: step cur createTabDialog_keeps_items inv)
qed

lemma addTabAt_keeps_items:
  assumes "visible_tabs_have_items s"
      and "addTabAt W t dlg txt pos lazyInitialization s = Inr s'"
  shows "visible_tabs_have_items s'"
proof -
  have inv: "distinct (map tab (tabs s))" "\<forall>x \<in> set (tabs s). tabItems s (tab x) \<noteq> None"
    using assms(1) by (simp_all add: visible_tabs_have_items_def)
  have step: "\<And>u c. visible_tabs_have_items u \<Longrightarrow> visible_tabs_have_items (send c u)"
    by (simp add: send_def visible_tabs_have_items_def)
  have new: "t \<notin> tab ` set (tabs s)"
  proof
    assume "t \<in> tab ` set (tabs s)"
    then have "findTab t s \<noteq> length (tabs s)" by (simp add: findTab_found)
    with assms(2) show False by (simp add: addTabAt_def Let_def split: if_splits)
  qed
  then have none: "findTab t s = length (tabs s)"
    using findTab_found [of t s] by simp
  have hid: "find_tab_in (hiddenTabs s) t = length (hiddenTabs s)"
  proof (rule ccontr)
    assume "find_tab_in (hiddenTabs s) t \<noteq> length (hiddenTabs s)"
    with assms(2) show False by (simp add: addTabAt_def Let_def split: if_splits)
  qed
  define u where "u = s\<lparr>tabs := insert_at pos \<lparr>tab = t, multiTabbedDialog = self s\<rparr> (tabs s),
      tabItems := (tabItems s)(t \<mapsto> \<lparr>dialogID = dlg, handle = 0\<rparr>)\<rparr>"
  have s': "s' = send (TCM_INSERTITEM (getTabIndex pos) txt)
      (if \<not> lazyInitialization then createTabDialog W t u else u)"
    using assms(2) none hid by (auto simp add: addTabAt_def Let_def u_def)
  have "distinct (map tab (insert_at pos \<lparr>tab = t, multiTabbedDialog = self s\<rparr> (tabs s)))"
    using inv(1) new by (intro distinct_insert_at) simp_all
  then have "visible_tabs_have_items u"
    using inv(2) by (auto simp add: u_def visible_tabs_have_items_def set_insert_at)
  then show ?thesis
    unfolding s' by (auto intro!: step createTabDialog_keeps_items)
qed

text \<open>
  Adding a tab whose identifier is already known (visible or hidden) with a dialog
  resource identifier other than the stored one throws \<open>std::invalid_argument\<close> to
  the caller of \<open>addTabAt\<close>. The throw comes before any change to \<open>tabs\<close> and
  \<open>hiddenTabs\<close> and before the message to the tabs control; the dialog is as it was,
  but for the item that reading \<open>tabItems[tab]\<close> inserts when there was none.
\<close>

lemma addTabAt_duplicate_invalid_argument:
  assumes "t \<in> tab ` set (tabs s) \<or> t \<in> tab ` set (hiddenTabs s)"
      and "dialogID (item_at (tabItems s) t) \<noteq> dlg"
  shows "addTabAt W t dlg txt pos lazyInitialization s =
           Inl (invalid_argument ''Cannot use the same tab ID for different dialogs'',
                s\<lparr>tabItems := (tabItems s)(t \<mapsto> item_at (tabItems s) t)\<rparr>)"
  using assms
  by (auto simp add: addTabAt_def Let_def findTab_found find_tab_in_found)



text \<open>
  C10. \<open>showTab\<close> of the tab that is already current changes nothing: the dialog it
  returns is the dialog it was given, with the same current tab, the same items (no
  dialog created) and the same calls (no visibility change, no selection message).
\<close>

theorem showTab_current_unchanged: "currentTab s = t \<Longrightarrow> showTab W t s = s"
  by (simp add: showTab_def)

theorem showTab_current_unchanged_witness:
  "currentTab example_dialog = 1 \<and> showTab (\<lambda>d. 7) 1 example_dialog = example_dialog"
  using showTab_current_unchanged [of example_dialog 1 "\<lambda>d. 7"]
  by (simp add: example_dialog_def)

section \<open>Properties of the lexer\<close>

text \<open>
  C6. The style identifiers are the seventeen enumerators of \<open>State\<close> and no others,
  and their ordinals run from 0 to 16 in the order Default, Operator, FlowControl, Type,
  Keyword, Keyword2, FoldOpen, FoldMiddle, FoldClose, Comment, CommentMultiLine,
  CommentDoc, Number, String, Property, Class, Function.
\<close>

theorem State_enumeration:
  "(UNIV :: State set) =
     set [Default, Operator, FlowControl, Type, Keyword, Keyword2, FoldOpen, FoldMiddle,
          FoldClose, Comment, CommentMultiLine, CommentDoc, Number, String, Property, Class,
          Function]
   \<and> map ordinal
       [Default, Operator, FlowControl, Type, Keyword, Keyword2, FoldOpen, FoldMiddle,
        FoldClose, Comment, CommentMultiLine, CommentDoc, Number, String, Property, Class,
        Function]
     = [0, 1, 2, 3, 4, 5, 6, 7, 8, 9, 10, 11, 12, 13, 14, 15, 16]"
proof
  show "(UNIV :: State set) =
     set [Default, Operator, FlowControl, Type, Keyword, Keyword2, FoldOpen, FoldMiddle,
          FoldClose, Comment, CommentMultiLine, CommentDoc, Number, String, Property, Class,
          Function]"
  proof (rule set_eqI)
    fix s :: State
    show "s \<in> UNIV \<longleftrightarrow> s \<in> set [Default, Operator, FlowControl, Type, Keyword, Keyword2,
          FoldOpen, FoldMiddle, FoldClose, Comment, CommentMultiLine, CommentDoc, Number, String,
          Property, Class, Function]"
      by (cases s) simp_all
  qed
  show "map ordinal
       [Default, Operator, FlowControl, Type, Keyword, Keyword2, FoldOpen, FoldMiddle,
        FoldClose, Comment, CommentMultiLine, CommentDoc, Number, String, Property, Class,
        Function]
     = [0, 1, 2, 3, 4, 5, 6, 7, 8, 9, 10, 11, 12, 13, 14, 15, 16]"
    by (simp add: ordinal_def)
qed

subsection \<open>Fold depth\<close>

lemma foldToken_nonneg: "0 \<le> d \<Longrightarrow> 0 \<le> foldToken lx buf d tok"
  by (simp add: foldToken_def)

lemma closeToken_nonneg: "0 \<le> d \<Longrightarrow> 0 \<le> closeToken lx buf d tok"
  by (simp add: closeToken_def)

lemma foldl_foldToken_nonneg: "0 \<le> d \<Longrightarrow> 0 \<le> foldl (foldToken lx buf) d toks"
  by (induction toks arbitrary: d) (simp_all add: foldToken_nonneg)

lemma foldl_closeToken_nonneg: "0 \<le> d \<Longrightarrow> 0 \<le> foldl (closeToken lx buf) d toks"
  by (induction toks arbitrary: d) (simp_all add: closeToken_nonneg)

lemma foldLines_nonneg:
  "0 \<le> d \<Longrightarrow> 0 \<le> snd (foldLines syn lx xs d) \<and> (\<forall>l \<in> set (fst (foldLines syn lx xs d)). 0 \<le> fst l)"
proof (induction xs arbitrary: d)
  case Nil
  then show ?case by simp
next
  case (Cons x xs)
  obtain t buf where x: "x = (t, buf)" by (cases x)
  let ?d' = "foldl (foldToken lx buf) d (scanLine syn t)"
  have "0 \<le> ?d'" using Cons.prems by (rule foldl_foldToken_nonneg)
  from Cons.IH [OF this] Cons.prems show ?case
    by (simp add: x foldLevel_def levelBeforeOpens_def Let_def split_beta foldl_closeToken_nonneg)
qed

lemma recordedDepth_nonneg:
  "\<forall>l \<in> set (levels doc). 0 \<le> fst l \<Longrightarrow> 0 \<le> recordedDepth doc L"
  by (simp add: recordedDepth_def)

lemma Fold_levels_nonneg:
  assumes "\<forall>l \<in> set (levels doc). 0 \<le> fst l"
  shows "\<forall>l \<in> set (levels (snd (Fold syn isUsable startOffset lengthDoc initStyle (lx, doc)))). 0 \<le> fst l"
proof (cases "\<not> isUsable \<or> lengthDoc = 0")
  case True
  with assms show ?thesis by (auto simp add: Fold_def)
next
  case False
  define firstLine where "firstLine = lineOfPos (lines doc) startOffset"
  define seg where "seg = take (Suc (lineOfPos (lines doc) (startOffset + lengthDoc - 1)) - firstLine)
       (drop firstLine (zip (lines doc) (styles doc)))"
  define r where "r = foldLines syn lx seg (recordedDepth doc firstLine)"
  have lv: "\<forall>l \<in> set (fst r). 0 \<le> fst l"
    unfolding r_def using foldLines_nonneg [OF recordedDepth_nonneg [OF assms]] by blast
  have "levels (snd (Fold syn isUsable startOffset lengthDoc initStyle (lx, doc)))
          = take firstLine (levels doc) @ fst r @ drop (firstLine + length (fst r)) (levels doc)"
    using False
    by (simp add: Fold_def Let_def split_beta r_def seg_def firstLine_def)
  moreover have "\<forall>l \<in> set (take firstLine (levels doc)). 0 \<le> fst l"
    using assms by (meson in_set_takeD)
  moreover have "\<forall>l \<in> set (drop (firstLine + length (fst r)) (levels doc)). 0 \<le> fst l"
    using assms by (meson in_set_dropD)
  ultimately show ?thesis using lv by auto
qed

text \<open>
  C3. For every token sequence and every previous depth that is not negative, the depth
  that the fold computation returns is not negative, and neither is the level it
  reports for the line; so the depth that \<open>Fold\<close> carries from line to line and every
  level it writes stay at or above zero (when the levels the document already records
  are). A closing marker takes one from the depth and stops at zero: at depth zero it
  leaves zero.
\<close>

theorem fold_depth_never_negative:
  assumes "0 \<le> previousDepth"
  shows "0 \<le> fst (foldLevel lx buf tokens previousDepth)
       \<and> 0 \<le> levelBeforeOpens lx buf tokens previousDepth
       \<and> 0 \<le> snd (foldLines syn lx textsAndStyles previousDepth)
       \<and> (\<forall>l \<in> set (fst (foldLines syn lx textsAndStyles previousDepth)). 0 \<le> fst l)
       \<and> ((\<forall>l \<in> set (levels doc). 0 \<le> fst l) \<longrightarrow>
            (\<forall>l \<in> set (levels (snd (Fold syn isUsable startOffset lengthDoc initStyle (lx, doc)))).
               0 \<le> fst l))
       \<and> (tokenType tok = Identifier \<and> \<not> inCommentOrString buf tok
            \<and> \<not> InList (wordListFoldOpen lx) (content tok)
            \<and> InList (wordListFoldClose lx) (content tok) \<longrightarrow>
            foldToken lx buf previousDepth tok = max 0 (previousDepth - 1)
            \<and> foldToken lx buf 0 tok = 0)"
proof -
  have "0 \<le> fst (foldLevel lx buf tokens previousDepth)"
    using assms by (simp add: foldLevel_def Let_def foldl_foldToken_nonneg)
  moreover have "0 \<le> levelBeforeOpens lx buf tokens previousDepth"
    using assms by (simp add: levelBeforeOpens_def foldl_closeToken_nonneg)
  moreover note foldLines_nonneg [OF assms, of syn lx textsAndStyles]
  moreover have "(\<forall>l \<in> set (levels doc). 0 \<le> fst l) \<longrightarrow>
      (\<forall>l \<in> set (levels (snd (Fold syn isUsable startOffset lengthDoc initStyle (lx, doc)))).
         0 \<le> fst l)"
    using Fold_levels_nonneg by blast
  moreover have "tokenType tok = Identifier \<and> \<not> inCommentOrString buf tok
            \<and> \<not> InList (wordListFoldOpen lx) (content tok)
            \<and> InList (wordListFoldClose lx) (content tok) \<longrightarrow>
            foldToken lx buf previousDepth tok = max 0 (previousDepth - 1)
            \<and> foldToken lx buf 0 tok = 0"
    by (simp add: foldToken_def)
  ultimately show ?thesis by blast
qed

theorem fold_depth_never_negative_witness:
  "(0::int) \<le> 0
   \<and> foldLevel example_lexer (replicate 12 Default) (scanLine example_syntax ''EndIf EndIf\<newline>'') 0
       = (0, False)
   \<and> 0 \<le> fst (foldLevel example_lexer (replicate 12 Default)
                 (scanLine example_syntax ''EndIf EndIf\<newline>'') 0)
   \<and> levels (snd (Fold example_syntax True 0 24 Default (example_lexer, unbalanced_closes)))
       = [(0, True), (1, False), (0, False)]"
proof -
  have "(0::int) \<le> 0" by simp
  from fold_depth_never_negative [OF this,
      of example_lexer "replicate 12 Default" "scanLine example_syntax ''EndIf EndIf\<newline>''"]
  have "0 \<le> fst (foldLevel example_lexer (replicate 12 Default)
                 (scanLine example_syntax ''EndIf EndIf\<newline>'') 0)"
    by blast
  moreover have "foldLevel example_lexer (replicate 12 Default)
      (scanLine example_syntax ''EndIf EndIf\<newline>'') 0 = (0, False)"
    by code_simp
  moreover have "levels (snd (Fold example_syntax True 0 24 Default (example_lexer, unbalanced_closes)))
       = [(0, True), (1, False), (0, False)]"
    by code_simp
  ultimately show ?thesis by simp
qed

end
